theory Spec2Isabelle
  imports Main "HOL-Library.Sublist" "HOL-Library.Stream"
begin

section \<open>Text: the Python string operations the script relies on\<close>

text \<open>
  A Python \<open>str\<close> is modelled as a \<open>string\<close>; a \<open>char\<close> stands for the code point of
  the same number, so the model covers text in the range U+0000 .. U+00FF. The character
  classes below are Python's, restricted to that range.
\<close>

definition py_isspace :: "char \<Rightarrow> bool" where
  \<comment> \<open>the characters removed by \<open>str.strip()\<close>: TAB LF VT FF CR, FS GS RS US, SPACE, NEL, NBSP\<close>
  "py_isspace c =
     (let n = (of_char c :: nat)
      in (9 \<le> n \<and> n \<le> 13) \<or> (28 \<le> n \<and> n \<le> 32) \<or> n = 133 \<or> n = 160)"

definition strip :: "string \<Rightarrow> string" where
  "strip s = rev (dropWhile py_isspace (rev (dropWhile py_isspace s)))"

definition is_linebreak :: "char \<Rightarrow> bool" where
  \<comment> \<open>the line boundaries of \<open>str.splitlines()\<close>: LF VT FF CR, FS GS RS, NEL\<close>
  "is_linebreak c =
     (let n = (of_char c :: nat)
      in (10 \<le> n \<and> n \<le> 13) \<or> (28 \<le> n \<and> n \<le> 30) \<or> n = 133)"

text \<open>
  \<open>str.splitlines()\<close>: every line boundary ends a line (CR LF counts as one boundary), and
  the text after the last boundary is a line only when it is not empty. The first argument
  is the current line, reversed.
\<close>

fun splitlines_from :: "string \<Rightarrow> string \<Rightarrow> string list" where
  "splitlines_from cur [] = (if cur = [] then [] else [rev cur])"
| "splitlines_from cur (c # cs) =
     (if c = CHR 0x0D then
        (case cs of
           [] \<Rightarrow> [rev cur]
         | d # ds \<Rightarrow> if d = CHR 0x0A then rev cur # splitlines_from [] ds
                     else rev cur # splitlines_from [] (d # ds))
      else if is_linebreak c then rev cur # splitlines_from [] cs
      else splitlines_from (c # cur) cs)"

definition splitlines :: "string \<Rightarrow> string list" where
  "splitlines s = splitlines_from [] s"

definition lower_char :: "char \<Rightarrow> char" where
  \<comment> \<open>\<open>A\<close>..\<open>Z\<close> and the capital letters U+00C0 .. U+00DE (all but the sign U+00D7)\<close>
  "lower_char c =
     (let n = (of_char c :: nat)
      in if (65 \<le> n \<and> n \<le> 90) \<or> (192 \<le> n \<and> n \<le> 222 \<and> n \<noteq> 215)
         then char_of (n + 32) else c)"

definition lower :: "string \<Rightarrow> string" where
  "lower s = map lower_char s"

text \<open>The substring test \<open>sub in s\<close>.\<close>

fun py_in :: "string \<Rightarrow> string \<Rightarrow> bool" where
  "py_in sub [] = (sub = [])"
| "py_in sub (c # cs) = (prefix sub (c # cs) \<or> py_in sub cs)"

text \<open>\<open>' '.join(cmd)\<close>.\<close>

fun join_spaces :: "string list \<Rightarrow> string" where
  "join_spaces [] = []"
| "join_spaces [x] = x"
| "join_spaces (x # y # ys) = x @ '' '' @ join_spaces (y # ys)"

text \<open>A text between single quotes, as in the f-string \<open>f"'{s}'"\<close>.\<close>

definition quoted :: "string \<Rightarrow> string" where
  "quoted s = [CHR 0x27] @ s @ [CHR 0x27]"

text \<open>The decimal text of a natural number, as an f-string prints it.\<close>

fun str_nat :: "nat \<Rightarrow> string" where
  "str_nat n =
     (if n < 10 then [''0123456789'' ! n]
      else str_nat (n div 10) @ [''0123456789'' ! (n mod 10)])"

declare str_nat.simps [simp del]

subsection \<open>\<open>repr(text)\<close>, which the message of \<open>ValueError\<close> quotes\<close>

definition py_isprintable :: "char \<Rightarrow> bool" where
  "py_isprintable c =
     (let n = (of_char c :: nat)
      in (32 \<le> n \<and> n \<le> 126) \<or> (161 \<le> n \<and> n \<noteq> 173))"

definition hex_digit :: "nat \<Rightarrow> char" where
  "hex_digit n = ''0123456789abcdef'' ! (n mod 16)"

definition repr_char :: "char \<Rightarrow> char \<Rightarrow> string" where
  "repr_char quote c =
     (if c = quote \<or> c = CHR 0x5C then [CHR 0x5C, c]
      else if c = CHR 0x09 then [CHR 0x5C, CHR ''t'']
      else if c = CHR 0x0A then [CHR 0x5C, CHR ''n'']
      else if c = CHR 0x0D then [CHR 0x5C, CHR ''r'']
      else if py_isprintable c then [c]
      else [CHR 0x5C, CHR ''x'',
            hex_digit ((of_char c :: nat) div 16), hex_digit ((of_char c :: nat) mod 16)])"

definition py_repr :: "string \<Rightarrow> string" where
  "py_repr s =
     (let quote = (if CHR 0x27 \<in> set s \<and> CHR 0x22 \<notin> set s then CHR 0x22 else CHR 0x27)
      in [quote] @ concat (map (repr_char quote) s) @ [quote])"

subsection \<open>\<open>int(text)\<close>\<close>

text \<open>
  \<open>int\<close> on a string, base 10, as the interpreter does it (CPython 3.11 and later): leading
  whitespace is skipped, one sign may follow, then decimal digits are scanned, where
  single underscores may stand between two digits; after the digits only whitespace may
  follow. In the modelled range the decimal digits are \<open>0\<close>..\<open>9\<close>, and the whitespace of
  \<open>int\<close> is TAB LF VT FF CR, SPACE, NEL and NBSP: the separators FS GS RS US, which
  \<open>str.strip()\<close> removes, are not whitespace here. A text with more than
  \<open>INT_MAX_STR_DIGITS\<close> digits is refused however well it is formed. Every refusal raises
  \<open>ValueError\<close>, the value \<open>Inl\<close> with the text of the exception.
\<close>

definition INT_MAX_STR_DIGITS :: nat where
  \<comment> \<open>the default of \<open>sys.get_int_max_str_digits()\<close>\<close>
  "INT_MAX_STR_DIGITS = 4300"

definition int_isspace :: "char \<Rightarrow> bool" where
  "int_isspace c =
     (let n = (of_char c :: nat)
      in (9 \<le> n \<and> n \<le> 13) \<or> n = 32 \<or> n = 133 \<or> n = 160)"

definition is_digit :: "char \<Rightarrow> bool" where
  "is_digit c = (let n = (of_char c :: nat) in 48 \<le> n \<and> n \<le> 57)"

definition digit_val :: "char \<Rightarrow> nat" where
  "digit_val c = of_char c - 48"

definition value_error_text :: "string \<Rightarrow> string" where
  \<comment> \<open>the format is \<open>%.200R\<close>: at most 200 characters of the repr\<close>
  "value_error_text s = ''invalid literal for int() with base 10: '' @ take 200 (py_repr s)"

definition limit_error_text :: "nat \<Rightarrow> string" where
  "limit_error_text digits =
     ''Exceeds the limit ('' @ str_nat INT_MAX_STR_DIGITS
     @ '' digits) for integer string conversion: value has '' @ str_nat digits
     @ '' digits; use sys.set_int_max_str_digits() to increase the limit''"

text \<open>
  The scan over the digits and underscores. Its arguments are the character before, the
  number of digits and the value so far, and the text left. It stops at the first
  character that is neither, and gives the number of digits, the value and the rest; a
  double or a trailing underscore is an error, the value \<open>None\<close>.
\<close>

fun scan_int :: "char \<Rightarrow> nat \<Rightarrow> nat \<Rightarrow> string \<Rightarrow> (nat \<times> nat \<times> string) option" where
  "scan_int prev digits acc [] =
     (if prev = CHR ''_'' then None else Some (digits, acc, []))"
| "scan_int prev digits acc (c # cs) =
     (if c = CHR ''_'' then
        (if prev = CHR ''_'' then None else scan_int c digits acc cs)
      else if is_digit c then scan_int c (Suc digits) (10 * acc + digit_val c) cs
      else if prev = CHR ''_'' then None
      else Some (digits, acc, c # cs))"

definition py_int :: "string \<Rightarrow> string + int" where
  "py_int s =
     (let invalid = Inl (value_error_text s);
          after_space = dropWhile int_isspace s;
          negative = (case after_space of [] \<Rightarrow> False | c # cs \<Rightarrow> c = CHR ''-'');
          body = (case after_space of
                    [] \<Rightarrow> []
                  | c # cs \<Rightarrow> if c = CHR ''+'' \<or> c = CHR ''-'' then cs else c # cs)
      in case body of
           [] \<Rightarrow> invalid
         | c # cs \<Rightarrow>
             if c = CHR ''_'' then invalid
             else
               (case scan_int (CHR 0x00) 0 0 body of
                  None \<Rightarrow> invalid
                | Some (digits, n, rest) \<Rightarrow>
                    if digits = 0 then invalid
                    else if INT_MAX_STR_DIGITS < digits then Inl (limit_error_text digits)
                    else if dropWhile int_isspace rest \<noteq> [] then invalid
                    else Inr (if negative then - int n else int n)))"

subsection \<open>\<open>re.match(r"origin/(.+)", line)\<close>\<close>

text \<open>
  The pattern is anchored at the start of the line; the group is greedy and \<open>.\<close> matches
  every character but LF, so the group is the longest run without LF after the prefix,
  and the match fails when that run is empty. The result is \<open>m.group(1)\<close>.
\<close>

definition re_match_origin :: "string \<Rightarrow> string option" where
  "re_match_origin line =
     (if prefix ''origin/'' line then
        (let g = takeWhile (\<lambda>c. c \<noteq> CHR 0x0A) (drop 7 line)
         in if g = [] then None else Some g)
      else None)"

section \<open>The environment\<close>

text \<open>
  The script talks to three things it does not control: the \<open>git\<close> subprocesses, the file
  system holding the log, and the operator at standard input. Each is a stream of
  outcomes, consumed one per use, so that every behaviour of the environment is some
  choice of the three streams. What the script does to the outside is recorded, in order,
  in a trace of events.
\<close>

datatype proc_outcome =
    Completed string            \<comment> \<open>exit status 0, with the captured standard output\<close>
  | CalledProcessError string   \<comment> \<open>exit status not 0, with the captured standard error\<close>
  | TimeoutExpired
  | OtherException string       \<comment> \<open>any other exception of \<open>subprocess.run\<close>, with its text\<close>

datatype event =
    Spawn "string list"         \<comment> \<open>a subprocess started with this argument vector\<close>
  | Print string                \<comment> \<open>a line printed to standard output\<close>
  | Prompt string               \<comment> \<open>\<open>input(prompt)\<close>: the prompt shown, then a read\<close>
  | Append string string        \<comment> \<open>text appended to the named file\<close>

record world =
  git :: "proc_outcome stream"      \<comment> \<open>the outcome of the next subprocess, and of those after\<close>
  stdin :: "string option stream"   \<comment> \<open>the next line typed; \<open>None\<close> is end of input\<close>
  logfs :: "string option stream"   \<comment> \<open>the next append to the log: \<open>None\<close> succeeds,
                                        \<open>Some m\<close> raises an exception with text \<open>m\<close>\<close>
  trace :: "event list"

text \<open>
  How a step of the loop over the branches, or the whole run, ends. \<open>Returned\<close> is a normal
  return; \<open>SysExit n\<close> is \<open>sys.exit(n)\<close>; \<open>Uncaught m\<close> is an exception that no handler of
  the script catches; \<open>OutOfFuel\<close> says that the bound put on the number of prompts was
  reached, the world being the one reached so far.
\<close>

datatype outcome = Returned | SysExit nat | Uncaught string | OutOfFuel

definition LOG_FILE :: string where
  "LOG_FILE = ''pull_errors.log''"

definition DEFAULT_TIMEOUT :: nat where
  "DEFAULT_TIMEOUT = 10"

definition py_print :: "string \<Rightarrow> world \<Rightarrow> world" where
  "py_print s w = w\<lparr>trace := trace w @ [Print s]\<rparr>"

definition py_input :: "string \<Rightarrow> world \<Rightarrow> (string + string) \<times> world" where
  \<comment> \<open>\<open>input(prompt)\<close> raises \<open>EOFError\<close> at end of input\<close>
  "py_input prompt w =
     (let w' = w\<lparr>stdin := stl (stdin w), trace := trace w @ [Prompt prompt]\<rparr>
      in case shd (stdin w) of
           None \<Rightarrow> (Inl ''EOF when reading a line'', w')
         | Some line \<Rightarrow> (Inr line, w'))"

definition append_file :: "string \<Rightarrow> string \<Rightarrow> world \<Rightarrow> (string + unit) \<times> world" where
  \<comment> \<open>\<open>with open(file, "a") as f: f.write(text)\<close>: the whole text is appended, or an
      exception is raised and nothing is appended\<close>
  "append_file file text w =
     (case shd (logfs w) of
        None \<Rightarrow> (Inr (), w\<lparr>logfs := stl (logfs w), trace := trace w @ [Append file text]\<rparr>)
      | Some m \<Rightarrow> (Inl m, w\<lparr>logfs := stl (logfs w)\<rparr>))"

section \<open>The script\<close>

text \<open>
  A function that can raise returns a sum: \<open>Inl\<close> carries the text of the exception,
  \<open>Inr\<close> the value returned. Printing is taken to succeed.
\<close>

definition command_result :: "string list \<Rightarrow> proc_outcome \<Rightarrow> string + string" where
  \<comment> \<open>the \<open>try\<close> of \<open>run_command\<close>: what it returns or raises, given how the subprocess ended\<close>
  "command_result cmd r =
     (case r of
        Completed out \<Rightarrow> Inr (strip out)
      | TimeoutExpired \<Rightarrow>
          Inl (''Command '' @ quoted (join_spaces cmd) @ '' timed out after ''
               @ str_nat DEFAULT_TIMEOUT @ '' seconds.'')
      | CalledProcessError err \<Rightarrow> Inl (strip err)
      | OtherException m \<Rightarrow> Inl m)"

definition run_command :: "string list \<Rightarrow> world \<Rightarrow> (string + string) \<times> world" where
  "run_command cmd w =
     (command_result cmd (shd (git w)),
      w\<lparr>git := stl (git w), trace := trace w @ [Spawn cmd]\<rparr>)"

definition log_pull_error :: "string \<Rightarrow> string \<Rightarrow> world \<Rightarrow> (string + unit) \<times> world" where
  "log_pull_error branch error_message w =
     (case append_file LOG_FILE
             (''Pull error on branch '' @ quoted branch @ '': '' @ error_message @ ''\<newline>'') w of
        (Inr u, w1) \<Rightarrow> (Inr (), w1)
      | (Inl ex, w1) \<Rightarrow> (Inr (), py_print (''Error logging pull error: '' @ ex) w1))"

definition is_git_repo :: "world \<Rightarrow> bool \<times> world" where
  "is_git_repo w =
     (case run_command [''git'', ''rev-parse'', ''--is-inside-work-tree''] w of
        (Inr output, w1) \<Rightarrow> (lower output = ''true'', w1)
      | (Inl e, w1) \<Rightarrow> (False, w1))"

text \<open>The loop of \<open>get_remote_branches\<close> over the lines, with the list it appends to.\<close>

fun collect_branches :: "string list \<Rightarrow> string list \<Rightarrow> string list" where
  "collect_branches [] branches = branches"
| "collect_branches (l # ls) branches =
     (let line = strip l
      in if py_in ''->'' line then collect_branches ls branches
         else case re_match_origin line of
                Some g \<Rightarrow> collect_branches ls (branches @ [g])
              | None \<Rightarrow> collect_branches ls (branches @ [line]))"

definition get_remote_branches :: "world \<Rightarrow> (string + string list) \<times> world" where
  "get_remote_branches w =
     (case run_command [''git'', ''branch'', ''-r''] w of
        (Inl e, w1) \<Rightarrow> (Inl e, w1)
      | (Inr output, w1) \<Rightarrow> (Inr (collect_branches (splitlines output) []), w1))"

definition branch_needs_pull :: "string \<Rightarrow> world \<Rightarrow> (string + bool) \<times> world" where
  "branch_needs_pull branch w =
     (let handler = (\<lambda>e w'.
            (Inr True,
             py_print (''  Could not compare branch '' @ quoted branch @ '' with remote: '' @ e) w'))
      in case run_command [''git'', ''rev-list'', ''--count'',
                           branch @ ''..origin/'' @ branch] w of
           (Inl e, w1) \<Rightarrow> handler e w1
         | (Inr count, w1) \<Rightarrow>
             (case py_int count of
                Inl e \<Rightarrow> handler e w1
              | Inr n \<Rightarrow> (Inr (n > 0), w1)))"

text \<open>
  The \<open>while True\<close> loop of the retry prompt. It may run for ever, so it takes a bound on
  the number of prompts; each prompt uses one unit.
\<close>

fun retry_loop :: "nat \<Rightarrow> string \<Rightarrow> world \<Rightarrow> outcome \<times> world" where
  "retry_loop 0 branch w = (OutOfFuel, w)"
| "retry_loop (Suc fuel) branch w =
     (case py_input (''Pull error on branch '' @ quoted branch @ ''. Try again? (y/n): '') w of
        (Inl eof, w1) \<Rightarrow> (Uncaught eof, w1)
      | (Inr line, w1) \<Rightarrow>
          (let user_input = lower (strip line)
           in if user_input = ''y'' then
                (case run_command [''git'', ''pull''] (py_print ''  Retrying pull...'' w1) of
                   (Inr out, w2) \<Rightarrow> (Returned, py_print ''  Pull succeeded.'' w2)
                 | (Inl error_msg_retry, w2) \<Rightarrow>
                     (case log_pull_error branch (''Retry: '' @ error_msg_retry)
                             (py_print (''  Retry failed: '' @ error_msg_retry) w2) of
                        (Inl ex, w3) \<Rightarrow> (Uncaught ex, w3)
                      | (Inr u, w3) \<Rightarrow> retry_loop fuel branch w3))
              else if user_input = ''n'' then
                (Returned, py_print (''  Skipping pull for branch '' @ quoted branch @ ''.'') w1)
              else retry_loop fuel branch (py_print ''  Please enter 'y' (yes) or 'n' (no).'' w1)))"

text \<open>The pull of one branch, with its handler: the last \<open>try\<close> of the loop body.\<close>

definition pull_branch :: "nat \<Rightarrow> string \<Rightarrow> world \<Rightarrow> outcome \<times> world" where
  "pull_branch fuel branch w =
     (case run_command [''git'', ''pull''] (py_print ''  Pulling latest changes...'' w) of
        (Inr out, w1) \<Rightarrow> (Returned, w1)
      | (Inl error_msg, w1) \<Rightarrow>
          (case log_pull_error branch error_msg
                  (py_print (''  Error pulling branch '' @ quoted branch @ '': '' @ error_msg) w1) of
             (Inl ex, w2) \<Rightarrow> (Uncaught ex, w2)
           | (Inr u, w2) \<Rightarrow> retry_loop fuel branch w2))"

text \<open>The body of the loop over the branches; \<open>Returned\<close> goes on to the next branch.\<close>

definition process_branch :: "nat \<Rightarrow> string \<Rightarrow> world \<Rightarrow> outcome \<times> world" where
  "process_branch fuel branch w =
     (case run_command [''git'', ''checkout'', branch]
             (py_print ''Checking out branch...''
               (py_print (''\<newline>Processing branch '' @ quoted branch @ '':'') w)) of
        (Inl e, w1) \<Rightarrow>
          (Returned, py_print (''  Error checking out branch '' @ quoted branch @ '': '' @ e) w1)
      | (Inr out, w1) \<Rightarrow>
          (case branch_needs_pull branch w1 of
             (Inr needed, w2) \<Rightarrow>
               if \<not> needed
               then (Returned, py_print ''  Branch is already up to date. Skipping pull.'' w2)
               else pull_branch fuel branch w2
           | (Inl e, w2) \<Rightarrow>
               pull_branch fuel branch
                 (py_print (''  Could not determine status for branch '' @ quoted branch @ '': '' @ e)
                    w2)))"

fun process_branches :: "nat \<Rightarrow> string list \<Rightarrow> world \<Rightarrow> outcome \<times> world" where
  "process_branches fuel [] w = (Returned, w)"
| "process_branches fuel (branch # rest) w =
     (case process_branch fuel branch w of
        (Returned, w1) \<Rightarrow> process_branches fuel rest w1
      | (stop, w1) \<Rightarrow> (stop, w1))"

definition main :: "nat \<Rightarrow> world \<Rightarrow> outcome \<times> world" where
  "main fuel w =
     (case is_git_repo w of
        (False, w1) \<Rightarrow> (SysExit 1, py_print ''Error: This directory is not a Git repository.'' w1)
      | (True, w1) \<Rightarrow>
          (case run_command [''git'', ''fetch'', ''--all'']
                  (py_print ''Fetching all remote branches...'' w1) of
             (Inl e, w2) \<Rightarrow> (SysExit 1, py_print ''Failed to fetch remote branches. Exiting.'' w2)
           | (Inr out, w2) \<Rightarrow>
               (case get_remote_branches w2 of
                  (Inl e, w3) \<Rightarrow> (SysExit 1, py_print ''Failed to retrieve remote branches.'' w3)
                | (Inr remote_branches, w3) \<Rightarrow>
                    if remote_branches = []
                    then (SysExit 0, py_print ''No remote branches found.'' w3)
                    else (case process_branches fuel remote_branches w3 of
                            (Returned, w4) \<Rightarrow>
                              (Returned, py_print ''\<newline>All branches processed.'' w4)
                          | (stop, w4) \<Rightarrow> (stop, w4)))))"

section \<open>Reading a trace\<close>

text \<open>The entries that a trace added to the error log, in order.\<close>

fun log_entries :: "event list \<Rightarrow> string list" where
  "log_entries [] = []"
| "log_entries (Append file text # es) =
     (if file = LOG_FILE then text # log_entries es else log_entries es)"
| "log_entries (Spawn cmd # es) = log_entries es"
| "log_entries (Print s # es) = log_entries es"
| "log_entries (Prompt s # es) = log_entries es"

text \<open>
  The control flow of a run, as the outside sees it: the subprocesses started and the
  prompts shown, in order.
\<close>

fun control_flow :: "event list \<Rightarrow> event list" where
  "control_flow [] = []"
| "control_flow (Spawn cmd # es) = Spawn cmd # control_flow es"
| "control_flow (Prompt s # es) = Prompt s # control_flow es"
| "control_flow (Print s # es) = control_flow es"
| "control_flow (Append file text # es) = control_flow es"

text \<open>
  Two worlds agree on the control flow when the subprocesses still have the same outcomes
  in store, the operator the same lines, and the same subprocesses and prompts have
  happened so far. What the file system does to the log is left free, and so is what was
  printed or appended.
\<close>

definition same_flow :: "world \<Rightarrow> world \<Rightarrow> bool" where
  "same_flow w1 w2 \<longleftrightarrow>
     git w1 = git w2 \<and> stdin w1 = stdin w2
     \<and> control_flow (trace w1) = control_flow (trace w2)"


section \<open>Basic facts about the primitives\<close>

lemma py_print_fields [simp]:
  "git (py_print s w) = git w" "stdin (py_print s w) = stdin w"
  "logfs (py_print s w) = logfs w" "trace (py_print s w) = trace w @ [Print s]"
  by (simp_all add: py_print_def)

lemma run_command_fields [simp]:
  "fst (run_command cmd w) = command_result cmd (shd (git w))"
  "git (snd (run_command cmd w)) = stl (git w)"
  "stdin (snd (run_command cmd w)) = stdin w"
  "logfs (snd (run_command cmd w)) = logfs w"
  "trace (snd (run_command cmd w)) = trace w @ [Spawn cmd]"
  by (simp_all add: run_command_def)

lemma command_result_Completed [simp]: "command_result cmd (Completed out) = Inr (strip out)"
  by (simp add: command_result_def)

section \<open>Facts about \<open>int(text)\<close>\<close>

lemma py_int_zero: "py_int ''0'' = Inr 0"
  by (simp add: py_int_def int_isspace_def is_digit_def digit_val_def INT_MAX_STR_DIGITS_def)

lemma py_int_accepts:
  "py_int ''42'' = Inr 42"
  "py_int ''-7'' = Inr (- 7)"
  "py_int ''+3'' = Inr 3"
  "py_int ''1_000'' = Inr 1000"
  "py_int ''007'' = Inr 7"
  by (simp_all add: py_int_def int_isspace_def is_digit_def digit_val_def INT_MAX_STR_DIGITS_def)

lemma py_int_refuses:
  "py_int ''abc'' = Inl (''invalid literal for int() with base 10: '' @ quoted ''abc'')"
  "py_int [] = Inl (''invalid literal for int() with base 10: '' @ quoted [])"
  "py_int ''1__0'' = Inl (''invalid literal for int() with base 10: '' @ quoted ''1__0'')"
  "py_int ''1_'' = Inl (''invalid literal for int() with base 10: '' @ quoted ''1_'')"
  "py_int ''_1'' = Inl (''invalid literal for int() with base 10: '' @ quoted ''_1'')"
  "py_int ''1 2'' = Inl (''invalid literal for int() with base 10: '' @ quoted ''1 2'')"
  "py_int ''1.5'' = Inl (''invalid literal for int() with base 10: '' @ quoted ''1.5'')"
  "py_int ''-'' = Inl (''invalid literal for int() with base 10: '' @ quoted ''-'')"
  by (simp_all add: py_int_def int_isspace_def is_digit_def digit_val_def INT_MAX_STR_DIGITS_def
      value_error_text_def py_repr_def repr_char_def py_isprintable_def quoted_def Let_def)

lemma scan_int_zeros:
  "scan_int p d 0 (replicate n (CHR ''0'')) =
     (if n = 0 \<and> p = CHR ''_'' then None else Some (d + n, 0, []))"
  by (induction n arbitrary: p d) (simp_all add: is_digit_def digit_val_def)

text \<open>A run of zeros is the number zero up to the limit on the digits, and refused beyond.\<close>

lemma py_int_zeros:
  assumes "0 < n"
  shows "py_int (replicate n (CHR ''0'')) =
           (if INT_MAX_STR_DIGITS < n then Inl (limit_error_text n) else Inr 0)"
proof -
  from assms obtain m where n: "n = Suc m" by (cases n) auto
  have "scan_int (CHR 0x00) 0 0 (CHR ''0'' # replicate m (CHR ''0'')) = Some (Suc m, 0, [])"
    using scan_int_zeros [of "CHR 0x00" 0 "Suc m"] by simp
  then show ?thesis
    by (simp add: n py_int_def int_isspace_def)
qed

text \<open>
  The shape of the texts that \<open>int\<close> accepts: nothing but digits, underscores, signs and
  whitespace. So every text with another character in it is refused.
\<close>

lemma scan_int_consumed:
  "scan_int p d a s = Some (d', n, rest) \<Longrightarrow>
     \<exists>consumed. s = consumed @ rest \<and> (\<forall>c \<in> set consumed. is_digit c \<or> c = CHR ''_'')"
proof (induction p d a s rule: scan_int.induct)
  case (1 prev digits acc)
  then show ?case by (simp split: if_splits)
next
  case (2 prev digits acc c cs)
  show ?case
  proof (cases "c = CHR ''_''")
    case True
    with "2.prems" have "prev \<noteq> CHR ''_''" and "scan_int c digits acc cs = Some (d', n, rest)"
      by (simp_all split: if_splits)
    with "2.IH"(1) [OF True] obtain consumed where
      "cs = consumed @ rest" "\<forall>c \<in> set consumed. is_digit c \<or> c = CHR ''_''"
      by blast
    with True have "c # cs = (c # consumed) @ rest
                    \<and> (\<forall>x \<in> set (c # consumed). is_digit x \<or> x = CHR ''_'')"
      by simp
    then show ?thesis by blast
  next
    case False
    show ?thesis
    proof (cases "is_digit c")
      case True
      with False "2.prems"
      have "scan_int c (Suc digits) (10 * acc + digit_val c) cs = Some (d', n, rest)"
        by simp
      with "2.IH"(2) [OF False True] obtain consumed where
        "cs = consumed @ rest" "\<forall>c \<in> set consumed. is_digit c \<or> c = CHR ''_''"
        by blast
      with True have "c # cs = (c # consumed) @ rest
                      \<and> (\<forall>x \<in> set (c # consumed). is_digit x \<or> x = CHR ''_'')"
        by simp
      then show ?thesis by blast
    next
      case nodigit: False
      with False "2.prems" have "rest = c # cs"
        by (simp split: if_splits)
      then have "c # cs = [] @ rest \<and> (\<forall>x \<in> set []. is_digit x \<or> x = CHR ''_'')"
        by simp
      then show ?thesis by blast
    qed
  qed
qed

lemma dropWhile_Nil_all: "dropWhile P xs = [] \<Longrightarrow> \<forall>x \<in> set xs. P x"
  by (induction xs) (auto split: if_splits)

lemma py_int_Inr_chars:
  assumes "py_int s = Inr n"
  shows "\<forall>c \<in> set s. is_digit c \<or> c = CHR ''_'' \<or> c = CHR ''+'' \<or> c = CHR ''-''
                      \<or> int_isspace c"
proof -
  let ?ok = "\<lambda>c. is_digit c \<or> c = CHR ''_'' \<or> c = CHR ''+'' \<or> c = CHR ''-'' \<or> int_isspace c"
  define after_space where "after_space = dropWhile int_isspace s"
  define body where
    "body = (case after_space of
               [] \<Rightarrow> []
             | c # cs \<Rightarrow> if c = CHR ''+'' \<or> c = CHR ''-'' then cs else c # cs)"
  from assms obtain digits k rest where
    scan: "scan_int (CHR 0x00) 0 0 body = Some (digits, k, rest)"
    and rest: "dropWhile int_isspace rest = []"
    by (auto simp: py_int_def Let_def after_space_def body_def
        split: list.splits option.splits if_splits prod.splits)
  from scan_int_consumed [OF scan] obtain consumed where
    body: "body = consumed @ rest" and consumed: "\<forall>c \<in> set consumed. is_digit c \<or> c = CHR ''_''"
    by blast
  from rest have "\<forall>c \<in> set rest. int_isspace c" by (rule dropWhile_Nil_all)
  with body consumed have b: "\<forall>c \<in> set body. ?ok c" by auto
  have a: "\<forall>c \<in> set after_space. ?ok c"
    using b unfolding body_def by (cases after_space) (auto split: if_splits)
  have "set s = set (takeWhile int_isspace s) \<union> set after_space"
    unfolding after_space_def by (metis set_append takeWhile_dropWhile_id)
  moreover have "\<forall>c \<in> set (takeWhile int_isspace s). int_isspace c"
    by (auto dest: set_takeWhileD)
  ultimately show ?thesis
    using a by blast
qed

lemma py_int_refuses_other:
  assumes "c \<in> set s" and "\<not> is_digit c" and "c \<noteq> CHR ''_''" and "c \<noteq> CHR ''+''"
    and "c \<noteq> CHR ''-''" and "\<not> int_isspace c"
  shows "\<exists>e. py_int s = Inl e"
proof (cases "py_int s")
  case (Inl e)
  then show ?thesis by blast
next
  case (Inr n)
  from py_int_Inr_chars [OF Inr] assms show ?thesis by blast
qed

section \<open>What the steps add to the trace\<close>

lemma control_flow_append [simp]:
  "control_flow (xs @ ys) = control_flow xs @ control_flow ys"
  by (induction xs rule: control_flow.induct) simp_all

lemma log_entries_append [simp]:
  "log_entries (xs @ ys) = log_entries xs @ log_entries ys"
  by (induction xs rule: log_entries.induct) simp_all

lemma py_input_eq:
  "py_input p w =
     ((case shd (stdin w) of None \<Rightarrow> Inl ''EOF when reading a line'' | Some line \<Rightarrow> Inr line),
      w\<lparr>stdin := stl (stdin w), trace := trace w @ [Prompt p]\<rparr>)"
  by (simp add: py_input_def Let_def split: option.splits)

lemma log_pull_error_eq:
  "log_pull_error b m w =
     (Inr (),
      w\<lparr>logfs := stl (logfs w),
        trace := trace w @
          (case shd (logfs w) of
             None \<Rightarrow> [Append LOG_FILE
                        (''Pull error on branch '' @ quoted b @ '': '' @ m @ ''\<newline>'')]
           | Some ex \<Rightarrow> [Print (''Error logging pull error: '' @ ex)])\<rparr>)"
  by (simp add: log_pull_error_def append_file_def py_print_def split: option.splits)

lemma control_flow_logged [simp]:
  "control_flow (case x of None \<Rightarrow> [Append f t] | Some ex \<Rightarrow> [Print (p ex)]) = []"
  by (cases x) simp_all

lemma retry_loop_trace:
  "prefix t (trace w) \<Longrightarrow> prefix t (trace (snd (retry_loop fuel b w)))"
proof (induction fuel arbitrary: w)
  case 0
  then show ?case by simp
next
  case (Suc fuel)
  then show ?case
    by (simp add: py_input_eq run_command_def py_print_def log_pull_error_eq Let_def
        split: option.splits sum.splits)
qed

lemma pull_branch_trace:
  assumes "prefix t (trace w @ [Print ''  Pulling latest changes...'', Spawn [''git'', ''pull'']])"
  shows "prefix t (trace (snd (pull_branch fuel b w)))"
proof -
  have more: "prefix t (trace w @ Print ''  Pulling latest changes...''
                          # Spawn [''git'', ''pull''] # evs)" for evs
    using assms
      prefix_prefix [of t "trace w @ [Print ''  Pulling latest changes...'',
                                      Spawn [''git'', ''pull'']]" evs]
    by simp
  show ?thesis
    by (simp add: pull_branch_def run_command_def py_print_def log_pull_error_eq
        retry_loop_trace more split: sum.splits)
qed

lemma pull_branch_trace_weak:
  "prefix t (trace w) \<Longrightarrow> prefix t (trace (snd (pull_branch fuel b w)))"
  by (rule pull_branch_trace) simp

lemma branch_needs_pull_eq:
  "branch_needs_pull b w =
     (let w1 = w\<lparr>git := stl (git w),
                   trace := trace w @ [Spawn [''git'', ''rev-list'', ''--count'',
                                             b @ ''..origin/'' @ b]]\<rparr>;
          failed = (\<lambda>e. (Inr True,
                     py_print (''  Could not compare branch '' @ quoted b
                               @ '' with remote: '' @ e) w1))
      in case command_result [''git'', ''rev-list'', ''--count'', b @ ''..origin/'' @ b]
                (shd (git w)) of
           Inl e \<Rightarrow> failed e
         | Inr count \<Rightarrow>
             (case py_int count of
                Inl e \<Rightarrow> failed e
              | Inr n \<Rightarrow> (Inr (0 < n), w1)))"
  by (simp add: branch_needs_pull_def run_command_def Let_def)

lemma branch_needs_pull_trace:
  "prefix t (trace w) \<Longrightarrow> prefix t (trace (snd (branch_needs_pull b w)))"
  by (simp add: branch_needs_pull_eq Let_def split: sum.splits option.splits)

lemma branch_needs_pull_returns: "\<exists>v. fst (branch_needs_pull b w) = Inr v"
  by (auto simp add: branch_needs_pull_eq Let_def split: sum.splits option.splits)

lemma process_branch_trace:
  "prefix t (trace w) \<Longrightarrow> prefix t (trace (snd (process_branch fuel b w)))"
  by (simp add: process_branch_def run_command_def py_print_def branch_needs_pull_eq Let_def
      pull_branch_trace_weak split: sum.splits option.splits)

lemma process_branches_trace:
  "prefix t (trace w) \<Longrightarrow> prefix t (trace (snd (process_branches fuel bs w)))"
proof (induction bs arbitrary: w)
  case Nil
  then show ?case by simp
next
  case (Cons b bs)
  obtain r w1 where step: "process_branch fuel b w = (r, w1)"
    by (cases "process_branch fuel b w")
  from Cons.prems have "prefix t (trace w1)"
    using process_branch_trace [of t w fuel b] step by simp
  with Cons.IH [of w1] step show ?case
    by (cases r) simp_all
qed

section \<open>Facts about the text operations\<close>

lemma py_in_sublist: "py_in sub s = sublist sub s"
  by (induction s) (simp_all add: sublist_Cons_right)

lemma sublist_trans: "sublist xs ys \<Longrightarrow> sublist ys zs \<Longrightarrow> sublist xs zs"
proof -
  assume "sublist xs ys" "sublist ys zs"
  then obtain p1 s1 p2 s2 where "ys = p1 @ xs @ s1" "zs = p2 @ ys @ s2"
    by (auto simp: sublist_def)
  then have "zs = (p2 @ p1) @ xs @ (s1 @ s2)" by simp
  then show ?thesis unfolding sublist_def by blast
qed

lemma sublist_strip: "sublist (strip s) s"
proof -
  have "prefix (strip s) (dropWhile py_isspace s)"
    unfolding strip_def by (metis suffix_dropWhile suffix_to_prefix rev_rev_ident)
  then have "sublist (strip s) (dropWhile py_isspace s)" by simp
  moreover have "sublist (dropWhile py_isspace s) s"
    by (simp add: suffix_dropWhile)
  ultimately show ?thesis by (rule sublist_trans)
qed

lemma arrow_not_space: "\<not> py_isspace (CHR ''-'')" "\<not> py_isspace (CHR ''>'')"
  by (simp_all add: py_isspace_def)

lemma arrow_survives_strip:
  assumes "py_in ''->'' s"
  shows "py_in ''->'' (strip s)"
proof -
  from assms obtain ps ss where s: "s = ps @ ''->'' @ ss"
    by (auto simp: py_in_sublist sublist_def)
  have "dropWhile py_isspace s = dropWhile py_isspace ps @ CHR ''-'' # CHR ''>'' # ss"
    by (simp add: s dropWhile_append3 arrow_not_space)
  then have "rev (dropWhile py_isspace s)
             = rev ss @ CHR ''>'' # CHR ''-'' # rev (dropWhile py_isspace ps)"
    by simp
  then have "strip s = dropWhile py_isspace ps @ ''->'' @ rev (dropWhile py_isspace (rev ss))"
    by (simp add: strip_def dropWhile_append3 arrow_not_space)
  then show ?thesis
    by (simp add: py_in_sublist sublist_def) blast
qed

lemma arrow_strip: "py_in ''->'' (strip s) = py_in ''->'' s"
  using arrow_survives_strip sublist_strip sublist_trans py_in_sublist by blast

lemma linefeed_is_linebreak: "is_linebreak (CHR 0x0A)"
  by (simp add: is_linebreak_def)

lemma splitlines_from_no_linefeed:
  "l \<in> set (splitlines_from cur s) \<Longrightarrow> CHR 0x0A \<notin> set cur \<Longrightarrow> CHR 0x0A \<notin> set l"
proof (induction cur s rule: splitlines_from.induct)
  case (1 cur)
  then show ?case by (simp split: if_splits)
next
  case (2 cur c cs)
  note mem = \<open>l \<in> set (splitlines_from cur (c # cs))\<close>
  note cur = \<open>CHR 0x0A \<notin> set cur\<close>
  show ?case
  proof (cases "c = CHR 0x0D")
    case cr: True
    show ?thesis
    proof (cases cs)
      case Nil
      with cr mem have "l = rev cur" by simp
      with cur show ?thesis by simp
    next
      case (Cons d ds)
      show ?thesis
      proof (cases "d = CHR 0x0A")
        case lf: True
        from mem cr Cons lf have "l = rev cur \<or> l \<in> set (splitlines_from [] ds)"
          by simp
        then show ?thesis
        proof
          assume "l = rev cur"
          with cur show ?thesis by simp
        next
          assume "l \<in> set (splitlines_from [] ds)"
          then show ?thesis
            using "2.IH"(1) [OF cr Cons lf] by simp
        qed
      next
        case nolf: False
        from mem cr Cons nolf have "l = rev cur \<or> l \<in> set (splitlines_from [] (d # ds))"
          by simp
        then show ?thesis
        proof
          assume "l = rev cur"
          with cur show ?thesis by simp
        next
          assume "l \<in> set (splitlines_from [] (d # ds))"
          then show ?thesis
            using "2.IH"(2) [OF cr Cons nolf] by simp
        qed
      qed
    qed
  next
    case nocr: False
    show ?thesis
    proof (cases "is_linebreak c")
      case br: True
      from mem nocr br have "l = rev cur \<or> l \<in> set (splitlines_from [] cs)"
        by simp
      then show ?thesis
      proof
        assume "l = rev cur"
        with cur show ?thesis by simp
      next
        assume "l \<in> set (splitlines_from [] cs)"
        then show ?thesis
          using "2.IH"(3) [OF nocr br] by simp
      qed
    next
      case nobr: False
      with linefeed_is_linebreak have "c \<noteq> CHR 0x0A" by auto
      with cur have cur': "CHR 0x0A \<notin> set (c # cur)" by simp
      from mem nocr nobr have "l \<in> set (splitlines_from (c # cur) cs)"
        by simp
      then show ?thesis
        using "2.IH"(4) [OF nocr nobr _ cur'] by simp
    qed
  qed
qed

lemma strip_line_no_linefeed:
  assumes "l \<in> set (splitlines s)"
  shows "CHR 0x0A \<notin> set (strip l)"
proof -
  have "CHR 0x0A \<notin> set l"
    using assms splitlines_from_no_linefeed [of l "[]" s] by (simp add: splitlines_def)
  then show ?thesis
    using set_mono_sublist [OF sublist_strip [of l]] by blast
qed

lemma re_match_origin_line:
  assumes "CHR 0x0A \<notin> set line"
  shows "re_match_origin line =
           (if prefix ''origin/'' line \<and> line \<noteq> ''origin/'' then Some (drop 7 line) else None)"
proof (cases "prefix ''origin/'' line")
  case False
  then show ?thesis by (simp add: re_match_origin_def)
next
  case True
  then obtain r where line: "line = ''origin/'' @ r" by (auto simp: prefix_def)
  with assms have "takeWhile (\<lambda>c. c \<noteq> CHR 0x0A) r = r"
    by auto
  with True line show ?thesis
    by (cases r) (simp_all add: re_match_origin_def Let_def)
qed

lemma collect_branches_eq:
  "collect_branches ls acc =
     acc @ map (\<lambda>l. case re_match_origin l of Some g \<Rightarrow> g | None \<Rightarrow> l)
             (filter (\<lambda>l. \<not> py_in ''->'' l) (map strip ls))"
  by (induction ls arbitrary: acc) (simp_all add: Let_def split: option.splits)

lemma collect_branches_lines:
  "collect_branches (splitlines s) [] =
     map (\<lambda>l. if prefix ''origin/'' l \<and> l \<noteq> ''origin/'' then drop 7 l else l)
       (filter (\<lambda>l. \<not> py_in ''->'' l) (map strip (splitlines s)))"
proof -
  have "(case re_match_origin l of Some g \<Rightarrow> g | None \<Rightarrow> l)
        = (if prefix ''origin/'' l \<and> l \<noteq> ''origin/'' then drop 7 l else l)"
    if "l \<in> set (filter (\<lambda>l. \<not> py_in ''->'' l) (map strip (splitlines s)))" for l
  proof -
    from that obtain l0 where "l0 \<in> set (splitlines s)" "l = strip l0" by auto
    then have "CHR 0x0A \<notin> set l" by (simp add: strip_line_no_linefeed)
    then show ?thesis by (simp add: re_match_origin_line)
  qed
  then show ?thesis
    unfolding collect_branches_eq by (simp cong: map_cong)
qed


section \<open>Enumerating the remote branches\<close>

lemma get_remote_branches_Completed:
  assumes "shd (git w) = Completed listing"
  shows "get_remote_branches w =
           (Inr (collect_branches (splitlines (strip listing)) []),
            w\<lparr>git := stl (git w), trace := trace w @ [Spawn [''git'', ''branch'', ''-r'']]\<rparr>)"
  using assms by (simp add: get_remote_branches_def run_command_def)

text \<open>
  Claim C3. Whatever the listing printed by \<open>git branch -r\<close>, no name returned by
  \<open>get_remote_branches\<close> contains the marker \<open>->\<close>. So a line with the marker is in the
  result in no form: not as it stands, not stripped, not with its prefix removed. The
  result has one name for each line without the marker, and none for the others.
\<close>

theorem alias_lines_never_listed:
  assumes "shd (git w) = Completed listing"
  shows "\<exists>branches.
           fst (get_remote_branches w) = Inr branches
         \<and> (\<forall>b \<in> set branches. \<not> py_in ''->'' b)
         \<and> (\<forall>l \<in> set (splitlines (strip listing)).
               py_in ''->'' l \<longrightarrow> l \<notin> set branches \<and> strip l \<notin> set branches)
         \<and> length branches
             = length (filter (\<lambda>l. \<not> py_in ''->'' l) (splitlines (strip listing)))"
proof -
  define ls where "ls = splitlines (strip listing)"
  define branches where "branches = collect_branches ls []"
  have eq: "branches =
              map (\<lambda>l. if prefix ''origin/'' l \<and> l \<noteq> ''origin/'' then drop 7 l else l)
                (filter (\<lambda>l. \<not> py_in ''->'' l) (map strip ls))"
    unfolding branches_def ls_def by (rule collect_branches_lines)
  have no_arrow: "\<not> py_in ''->'' b" if "b \<in> set branches" for b
  proof -
    define f where "f = (\<lambda>l. if prefix ''origin/'' l \<and> l \<noteq> ''origin/'' then drop 7 l else l)"
    have "b \<in> f ` set (filter (\<lambda>l. \<not> py_in ''->'' l) (map strip ls))"
      using that unfolding eq f_def by (simp only: set_map)
    then obtain l where l: "\<not> py_in ''->'' l" and b: "b = f l"
      by auto
    have "sublist b l"
      unfolding b f_def by (simp add: suffix_drop)
    with l show ?thesis
      using sublist_trans by (auto simp: py_in_sublist)
  qed
  have lines: "l \<notin> set branches \<and> strip l \<notin> set branches" if "py_in ''->'' l" for l
    using that no_arrow arrow_strip by blast
  have "length branches = length (filter (\<lambda>l. \<not> py_in ''->'' l) (map strip ls))"
    by (simp add: eq)
  also have "\<dots> = length (filter (\<lambda>l. \<not> py_in ''->'' l) ls)"
    by (simp add: filter_map o_def arrow_strip)
  finally have len: "length branches = length (filter (\<lambda>l. \<not> py_in ''->'' l) ls)" .
  have "fst (get_remote_branches w) = Inr branches"
    by (simp add: get_remote_branches_Completed [OF assms] branches_def ls_def)
  with no_arrow lines len show ?thesis
    unfolding ls_def by blast
qed

theorem alias_lines_never_listed_witness:
  "fst (get_remote_branches
         \<lparr>git = sconst (Completed ''  origin/HEAD -> origin/main\<newline>  origin/main\<newline>''),
          stdin = sconst None, logfs = sconst None, trace = []\<rparr>) = Inr [''main'']
   \<and> py_in ''->'' ''  origin/HEAD -> origin/main''"
proof -
  have h: "shd (git \<lparr>git = sconst (Completed ''  origin/HEAD -> origin/main\<newline>  origin/main\<newline>''),
                     stdin = sconst None, logfs = sconst None, trace = []\<rparr>)
           = Completed ''  origin/HEAD -> origin/main\<newline>  origin/main\<newline>''"
    by simp
  have lines: "splitlines (strip ''  origin/HEAD -> origin/main\<newline>  origin/main\<newline>'')
               = [''origin/HEAD -> origin/main'', ''  origin/main'']"
    by (simp add: splitlines_def strip_def py_isspace_def is_linebreak_def)
  from alias_lines_never_listed [OF h] obtain branches where
    b: "fst (get_remote_branches
         \<lparr>git = sconst (Completed ''  origin/HEAD -> origin/main\<newline>  origin/main\<newline>''),
          stdin = sconst None, logfs = sconst None, trace = []\<rparr>) = Inr branches"
    and "\<forall>b \<in> set branches. \<not> py_in ''->'' b"
    by blast
  have "branches = [''main'']"
    using b
    by (simp add: get_remote_branches_def run_command_def splitlines_def is_linebreak_def
        strip_def py_isspace_def re_match_origin_def)
  with b show ?thesis by simp
qed





section \<open>The loop over the branches\<close>

text \<open>
  Claim C1. When the checkout of a branch succeeds and the count query
  \<open>git rev-list --count b..origin/b\<close> succeeds with the text \<open>0\<close> (after \<open>run_command\<close>
  has stripped it), the loop body ends normally after printing that the branch is up to
  date: the events it adds contain no \<open>git pull\<close>, and the loop goes on with the
  remaining branches.
\<close>

theorem up_to_date_branch_not_pulled:
  fixes w :: world and b :: string and fuel :: nat and rest :: "string list"
  defines "evs \<equiv> [Print (''\<newline>Processing branch '' @ quoted b @ '':''),
                  Print ''Checking out branch...'',
                  Spawn [''git'', ''checkout'', b],
                  Spawn [''git'', ''rev-list'', ''--count'', b @ ''..origin/'' @ b],
                  Print ''  Branch is already up to date. Skipping pull.'']"
  defines "w' \<equiv> w\<lparr>git := stl (stl (git w)), trace := trace w @ evs\<rparr>"
  assumes checkout: "shd (git w) = Completed co"
      and count: "shd (stl (git w)) = Completed cnt" "strip cnt = ''0''"
  shows "process_branch fuel b w = (Returned, w')
       \<and> Spawn [''git'', ''pull''] \<notin> set evs
       \<and> process_branches fuel (b # rest) w = process_branches fuel rest w'"
proof -
  have step: "process_branch fuel b w = (Returned, w')"
    using checkout count
    by (simp add: process_branch_def branch_needs_pull_def run_command_def py_print_def
        py_int_zero w'_def evs_def)
  have "Spawn [''git'', ''pull''] \<notin> set evs"
    by (simp add: evs_def)
  with step show ?thesis by simp
qed

theorem up_to_date_branch_not_pulled_witness:
  "process_branch 0 ''main''
     \<lparr>git = Completed ''Switched'' ## Completed ''0\<newline>'' ## sconst TimeoutExpired,
      stdin = sconst None, logfs = sconst None, trace = []\<rparr>
   = (Returned,
      \<lparr>git = sconst TimeoutExpired, stdin = sconst None, logfs = sconst None,
       trace = [Print (''\<newline>Processing branch '' @ quoted ''main'' @ '':''),
                Print ''Checking out branch...'',
                Spawn [''git'', ''checkout'', ''main''],
                Spawn [''git'', ''rev-list'', ''--count'', ''main..origin/main''],
                Print ''  Branch is already up to date. Skipping pull.'']\<rparr>)"
  using up_to_date_branch_not_pulled
          [where w = "\<lparr>git = Completed ''Switched'' ## Completed ''0\<newline>'' ## sconst TimeoutExpired,
                        stdin = sconst None, logfs = sconst None, trace = []\<rparr>"
             and co = "''Switched''" and cnt = "''0\<newline>''" and b = "''main''" and fuel = 0]
  by (simp add: strip_def py_isspace_def)

text \<open>
  Claim C8. When the checkout of a branch fails with the text \<open>e\<close>, the loop body prints
  a message with \<open>e\<close> and ends normally: nothing is appended to the error log, no prompt
  is shown and nothing is read from standard input, the only subprocess is the checkout,
  and the loop goes on with the remaining branches.
\<close>

theorem checkout_failure_skips_branch:
  fixes w :: world and b e :: string and fuel :: nat and rest :: "string list"
  defines "evs \<equiv> [Print (''\<newline>Processing branch '' @ quoted b @ '':''),
                  Print ''Checking out branch...'',
                  Spawn [''git'', ''checkout'', b],
                  Print (''  Error checking out branch '' @ quoted b @ '': '' @ e)]"
  defines "w' \<equiv> w\<lparr>git := stl (git w), trace := trace w @ evs\<rparr>"
  assumes "command_result [''git'', ''checkout'', b] (shd (git w)) = Inl e"
  shows "process_branch fuel b w = (Returned, w')
       \<and> log_entries evs = [] \<and> control_flow evs = [Spawn [''git'', ''checkout'', b]]
       \<and> stdin w' = stdin w \<and> logfs w' = logfs w
       \<and> process_branches fuel (b # rest) w = process_branches fuel rest w'"
proof -
  have step: "process_branch fuel b w = (Returned, w')"
    using assms(3)
    by (simp add: process_branch_def run_command_def py_print_def w'_def evs_def)
  have "log_entries evs = []" "control_flow evs = [Spawn [''git'', ''checkout'', b]]"
    by (simp_all add: evs_def)
  with step show ?thesis by (simp add: w'_def)
qed

theorem checkout_failure_skips_branch_witness:
  "process_branches 0 [''gone'']
     \<lparr>git = sconst (CalledProcessError ''error: pathspec''),
      stdin = sconst None, logfs = sconst None, trace = []\<rparr>
   = (Returned,
      \<lparr>git = sconst (CalledProcessError ''error: pathspec''),
       stdin = sconst None, logfs = sconst None,
       trace = [Print (''\<newline>Processing branch '' @ quoted ''gone'' @ '':''),
                Print ''Checking out branch...'',
                Spawn [''git'', ''checkout'', ''gone''],
                Print (''  Error checking out branch '' @ quoted ''gone'' @ '': error: pathspec'')]\<rparr>)"
  using checkout_failure_skips_branch
          [where w = "\<lparr>git = sconst (CalledProcessError ''error: pathspec''),
                        stdin = sconst None, logfs = sconst None, trace = []\<rparr>"
             and b = "''gone''" and e = "''error: pathspec''" and fuel = 0 and rest = "[]"]
  by (simp add: command_result_def strip_def py_isspace_def)
text \<open>
  Claim C2. Let the checkout of a branch succeed and the comparison query fail: the
  command exits with an error, times out or cannot be started, or \<open>int\<close> refuses its
  output (the text is no integer literal, or has more digits than the interpreter
  converts). Then \<open>branch_needs_pull\<close> returns \<open>True\<close> and does not raise, and the loop
  body goes on to the pull: whatever happens later, its trace starts with the checkout,
  the query, the message about the failed comparison, and \<open>git pull\<close>.
\<close>

theorem comparison_failure_fails_open:
  fixes w :: world and b :: string and fuel :: nat
  assumes checkout: "shd (git w) = Completed co"
      and failed: "\<forall>out. shd (stl (git w)) = Completed out
                     \<longrightarrow> (\<exists>e. py_int (strip out) = Inl e)"
  shows "(\<forall>v. git v = stl (git w) \<longrightarrow> fst (branch_needs_pull b v) = Inr True)
       \<and> (\<exists>e. prefix
                 (trace w @
                    [Print (''\<newline>Processing branch '' @ quoted b @ '':''),
                     Print ''Checking out branch...'',
                     Spawn [''git'', ''checkout'', b],
                     Spawn [''git'', ''rev-list'', ''--count'', b @ ''..origin/'' @ b],
                     Print (''  Could not compare branch '' @ quoted b @ '' with remote: '' @ e),
                     Print ''  Pulling latest changes...'',
                     Spawn [''git'', ''pull'']])
                 (trace (snd (process_branch fuel b w))))"
proof -
  let ?cmd = "[''git'', ''rev-list'', ''--count'', b @ ''..origin/'' @ b]"
  let ?r = "command_result ?cmd (shd (stl (git w)))"
  have parse: "\<exists>e. py_int count = Inl e" if "?r = Inr count" for count
    using that failed by (cases "shd (stl (git w))") (simp_all add: command_result_def)
  have first: "fst (branch_needs_pull b v) = Inr True" if "git v = stl (git w)" for v
  proof (cases ?r)
    case (Inl m)
    with that show ?thesis by (simp add: branch_needs_pull_eq Let_def)
  next
    case (Inr count)
    with parse obtain e where "py_int count = Inl e" by blast
    with Inr that show ?thesis by (simp add: branch_needs_pull_eq Let_def)
  qed
  define e where
    "e = (case ?r of
            Inl m \<Rightarrow> m
          | Inr count \<Rightarrow> (case py_int count of Inl m \<Rightarrow> m | Inr n \<Rightarrow> []))"
  define w2 where
    "w2 = w\<lparr>git := stl (stl (git w)),
            trace := trace w @
              [Print (''\<newline>Processing branch '' @ quoted b @ '':''),
               Print ''Checking out branch...'',
               Spawn [''git'', ''checkout'', b],
               Spawn ?cmd,
               Print (''  Could not compare branch '' @ quoted b @ '' with remote: '' @ e)]\<rparr>"
  have step: "process_branch fuel b w = pull_branch fuel b w2"
  proof (cases ?r)
    case (Inl m)
    with checkout show ?thesis
      by (simp add: process_branch_def run_command_def py_print_def branch_needs_pull_eq
          Let_def w2_def e_def)
  next
    case (Inr count)
    with parse obtain m where "py_int count = Inl m" by blast
    with Inr checkout show ?thesis
      by (simp add: process_branch_def run_command_def py_print_def branch_needs_pull_eq
          Let_def w2_def e_def)
  qed
  have "prefix (trace w2 @ [Print ''  Pulling latest changes...'', Spawn [''git'', ''pull'']])
          (trace (snd (pull_branch fuel b w2)))"
    by (rule pull_branch_trace) simp
  then have "prefix
      (trace w @
         [Print (''\<newline>Processing branch '' @ quoted b @ '':''),
          Print ''Checking out branch...'',
          Spawn [''git'', ''checkout'', b],
          Spawn ?cmd,
          Print (''  Could not compare branch '' @ quoted b @ '' with remote: '' @ e),
          Print ''  Pulling latest changes...'',
          Spawn [''git'', ''pull'']])
      (trace (snd (process_branch fuel b w)))"
    by (simp add: step w2_def)
  with first show ?thesis by blast
qed

text \<open>
  The four ways for the comparison to fail: an error of the command, a timeout, an
  output that is no integer literal, and an output of 4301 zeros, which is beyond the
  limit on the digits.
\<close>

theorem comparison_failure_fails_open_witness:
  "fst (branch_needs_pull ''dev''
          \<lparr>git = sconst (CalledProcessError ''fatal: bad revision''),
           stdin = sconst None, logfs = sconst None, trace = []\<rparr>) = Inr True
   \<and> fst (branch_needs_pull ''dev''
          \<lparr>git = sconst TimeoutExpired,
           stdin = sconst None, logfs = sconst None, trace = []\<rparr>) = Inr True
   \<and> fst (branch_needs_pull ''dev''
          \<lparr>git = sconst (Completed ''abc\<newline>''),
           stdin = sconst None, logfs = sconst None, trace = []\<rparr>) = Inr True
   \<and> fst (branch_needs_pull ''dev''
          \<lparr>git = sconst (Completed (replicate 4301 (CHR ''0''))),
           stdin = sconst None, logfs = sconst None, trace = []\<rparr>) = Inr True"
proof -
  let ?w = "\<lambda>r. \<lparr>git = Completed ''ok'' ## sconst r,
                 stdin = sconst None, logfs = sconst None, trace = []\<rparr>"
  let ?v = "\<lambda>r. \<lparr>git = sconst r,
                 stdin = sconst None, logfs = sconst None, trace = []\<rparr>"
  have checkout: "shd (git (?w r)) = Completed ''ok''" for r by simp
  have v: "git (?v r) = stl (git (?w r))" for r by simp
  have cmd_error: "\<forall>out. shd (stl (git (?w (CalledProcessError ''fatal: bad revision''))))
                       = Completed out \<longrightarrow> (\<exists>e. py_int (strip out) = Inl e)"
    by simp
  have timed_out: "\<forall>out. shd (stl (git (?w TimeoutExpired))) = Completed out
                       \<longrightarrow> (\<exists>e. py_int (strip out) = Inl e)"
    by simp
  have "strip ''abc\<newline>'' = ''abc''"
    by (simp add: strip_def py_isspace_def)
  then have no_literal: "\<forall>out. shd (stl (git (?w (Completed ''abc\<newline>'')))) = Completed out
                       \<longrightarrow> (\<exists>e. py_int (strip out) = Inl e)"
    using py_int_refuses(1) by auto
  have "strip (replicate 4301 (CHR ''0'')) = replicate 4301 (CHR ''0'')"
    by (simp add: strip_def py_isspace_def)
  moreover have "py_int (replicate 4301 (CHR ''0'')) = Inl (limit_error_text 4301)"
    using py_int_zeros [of 4301] by (simp add: INT_MAX_STR_DIGITS_def)
  ultimately have too_long:
    "\<forall>out. shd (stl (git (?w (Completed (replicate 4301 (CHR ''0''))))))
              = Completed out \<longrightarrow> (\<exists>e. py_int (strip out) = Inl e)"
    by auto
  from comparison_failure_fails_open [OF checkout cmd_error, of "''dev''"] v
  have 1: "fst (branch_needs_pull ''dev'' (?v (CalledProcessError ''fatal: bad revision'')))
           = Inr True"
    by blast
  from comparison_failure_fails_open [OF checkout timed_out, of "''dev''"] v
  have 2: "fst (branch_needs_pull ''dev'' (?v TimeoutExpired)) = Inr True"
    by blast
  from comparison_failure_fails_open [OF checkout no_literal, of "''dev''"] v
  have 3: "fst (branch_needs_pull ''dev'' (?v (Completed ''abc\<newline>''))) = Inr True"
    by blast
  from comparison_failure_fails_open [OF checkout too_long, of "''dev''"] v
  have 4: "fst (branch_needs_pull ''dev'' (?v (Completed (replicate 4301 (CHR ''0'')))))
           = Inr True"
    by blast
  from 1 2 3 4 show ?thesis by blast
qed

section \<open>A pull that fails\<close>

text \<open>
  \<open>pull_branch\<close> is all that the loop body does for a branch from its pull on.

  Claim C5, as amended. Let the pull fail with the text \<open>e\<close> and the operator answer the
  first prompt with \<open>n\<close> (in any case, with any surrounding whitespace). Then the branch is
  done after one prompt: \<open>git pull\<close> ran exactly once, and \<open>log_pull_error\<close> was called
  exactly once, for the first failure. The log has one entry for the branch when that
  append succeeds, and none when the append itself fails; the failure to log is then
  printed.
\<close>

theorem pull_failure_then_no:
  fixes w :: world and b e answer :: string and fuel :: nat
  defines "entry \<equiv> ''Pull error on branch '' @ quoted b @ '': '' @ e @ ''\<newline>''"
  defines "logged \<equiv> (case shd (logfs w) of
                        None \<Rightarrow> [Append LOG_FILE entry]
                      | Some ex \<Rightarrow> [Print (''Error logging pull error: '' @ ex)])"
  defines "evs \<equiv> [Print ''  Pulling latest changes...'',
                  Spawn [''git'', ''pull''],
                  Print (''  Error pulling branch '' @ quoted b @ '': '' @ e)]
                 @ logged @
                 [Prompt (''Pull error on branch '' @ quoted b @ ''. Try again? (y/n): ''),
                  Print (''  Skipping pull for branch '' @ quoted b @ ''.'')]"
  assumes pull: "command_result [''git'', ''pull''] (shd (git w)) = Inl e"
      and answer: "shd (stdin w) = Some answer" "lower (strip answer) = ''n''"
  shows "pull_branch (Suc fuel) b w =
           (Returned, w\<lparr>git := stl (git w), stdin := stl (stdin w), logfs := stl (logfs w),
                         trace := trace w @ evs\<rparr>)
       \<and> count_list evs (Spawn [''git'', ''pull'']) = 1
       \<and> log_entries evs = (case shd (logfs w) of None \<Rightarrow> [entry] | Some ex \<Rightarrow> [])"
proof -
  have step: "pull_branch (Suc fuel) b w =
           (Returned, w\<lparr>git := stl (git w), stdin := stl (stdin w), logfs := stl (logfs w),
                         trace := trace w @ evs\<rparr>)"
    using pull answer unfolding evs_def logged_def entry_def
    by (simp add: pull_branch_def run_command_def py_print_def log_pull_error_eq py_input_eq
        Let_def)
  have pulls: "count_list evs (Spawn [''git'', ''pull'']) = 1"
    unfolding evs_def logged_def by (cases "shd (logfs w)") simp_all
  have entries: "log_entries evs = (case shd (logfs w) of None \<Rightarrow> [entry] | Some ex \<Rightarrow> [])"
    unfolding evs_def logged_def entry_def by (cases "shd (logfs w)") simp_all
  from step pulls entries show ?thesis by simp
qed

theorem pull_failure_then_no_witness:
  "pull_branch (Suc 0) ''dev''
     \<lparr>git = sconst (CalledProcessError ''conflict''), stdin = sconst (Some ''n''),
      logfs = sconst None, trace = []\<rparr>
   = (Returned,
      \<lparr>git = sconst (CalledProcessError ''conflict''), stdin = sconst (Some ''n''),
       logfs = sconst None,
       trace = [Print ''  Pulling latest changes...'',
                Spawn [''git'', ''pull''],
                Print (''  Error pulling branch '' @ quoted ''dev'' @ '': conflict''),
                Append ''pull_errors.log''
                  (''Pull error on branch '' @ quoted ''dev'' @ '': conflict\<newline>''),
                Prompt (''Pull error on branch '' @ quoted ''dev'' @ ''. Try again? (y/n): ''),
                Print (''  Skipping pull for branch '' @ quoted ''dev'' @ ''.'')]\<rparr>)"
proof -
  let ?w = "\<lparr>git = sconst (CalledProcessError ''conflict''), stdin = sconst (Some ''n''),
             logfs = sconst None, trace = []\<rparr>"
  have h1: "command_result [''git'', ''pull''] (shd (git ?w)) = Inl ''conflict''"
    by (simp add: command_result_def strip_def py_isspace_def)
  have h2: "shd (stdin ?w) = Some ''n''" by simp
  have h3: "lower (strip ''n'') = ''n''"
    by (simp add: lower_def lower_char_def strip_def py_isspace_def)
  from pull_failure_then_no [OF h1 h2 h3, of 0 "''dev''"]
  show ?thesis by (simp add: LOG_FILE_def)
qed

text \<open>
  The claim as worded has exactly one entry in the log. With a log that cannot be
  written, the pull fails, the operator answers \<open>n\<close>, the branch is done, and the log has
  no entry.
\<close>

theorem pull_failure_then_no_counterexample:
  "command_result [''git'', ''pull'']
     (shd (git \<lparr>git = sconst (CalledProcessError ''conflict''), stdin = sconst (Some ''n''),
               logfs = sconst (Some ''Permission denied''), trace = []\<rparr>)) = Inl ''conflict''
   \<and> fst (pull_branch (Suc 0) ''dev''
       \<lparr>git = sconst (CalledProcessError ''conflict''), stdin = sconst (Some ''n''),
        logfs = sconst (Some ''Permission denied''), trace = []\<rparr>) = Returned
   \<and> log_entries (trace (snd (pull_branch (Suc 0) ''dev''
       \<lparr>git = sconst (CalledProcessError ''conflict''), stdin = sconst (Some ''n''),
        logfs = sconst (Some ''Permission denied''), trace = []\<rparr>))) = []"
  by (simp add: pull_branch_def run_command_def py_print_def log_pull_error_eq py_input_eq
      Let_def command_result_def lower_def lower_char_def strip_def py_isspace_def)

text \<open>
  Claim C6, as amended. Let the pull fail with \<open>e1\<close>, the operator answer \<open>y\<close>, and the
  second pull fail with \<open>e2\<close>. Then \<open>log_pull_error\<close> has been called twice, with \<open>e1\<close> and
  with \<open>Retry: e2\<close>, and the loop is back at its start: with a prompt left in the bound,
  the next event is the prompt again. Each entry written has the form
  \<open>Pull error on branch '<branch>': <message>\<close> and a line feed; the log has both entries
  when both appends succeed, and lacks the entry of an append that fails.
\<close>

theorem retry_failure_logged_again:
  fixes w :: world and b e1 e2 answer :: string and fuel :: nat
  defines "entry1 \<equiv> ''Pull error on branch '' @ quoted b @ '': '' @ e1 @ ''\<newline>''"
  defines "entry2 \<equiv> ''Pull error on branch '' @ quoted b @ '': '' @ (''Retry: '' @ e2) @ ''\<newline>''"
  defines "logged1 \<equiv> (case shd (logfs w) of
                         None \<Rightarrow> [Append LOG_FILE entry1]
                       | Some ex \<Rightarrow> [Print (''Error logging pull error: '' @ ex)])"
  defines "logged2 \<equiv> (case shd (stl (logfs w)) of
                         None \<Rightarrow> [Append LOG_FILE entry2]
                       | Some ex \<Rightarrow> [Print (''Error logging pull error: '' @ ex)])"
  defines "ask \<equiv> Prompt (''Pull error on branch '' @ quoted b @ ''. Try again? (y/n): '')"
  defines "evs \<equiv> [Print ''  Pulling latest changes...'',
                  Spawn [''git'', ''pull''],
                  Print (''  Error pulling branch '' @ quoted b @ '': '' @ e1)]
                 @ logged1 @
                 [ask,
                  Print ''  Retrying pull...'',
                  Spawn [''git'', ''pull''],
                  Print (''  Retry failed: '' @ e2)]
                 @ logged2"
  defines "w' \<equiv> w\<lparr>git := stl (stl (git w)), stdin := stl (stdin w),
                    logfs := stl (stl (logfs w)), trace := trace w @ evs\<rparr>"
  assumes pull: "command_result [''git'', ''pull''] (shd (git w)) = Inl e1"
      and answer: "shd (stdin w) = Some answer" "lower (strip answer) = ''y''"
      and retry: "command_result [''git'', ''pull''] (shd (stl (git w))) = Inl e2"
  shows "pull_branch (Suc fuel) b w = retry_loop fuel b w'
       \<and> log_entries evs =
           (case shd (logfs w) of None \<Rightarrow> [entry1] | Some ex \<Rightarrow> [])
           @ (case shd (stl (logfs w)) of None \<Rightarrow> [entry2] | Some ex \<Rightarrow> [])
       \<and> prefix (trace w @ evs @ [ask]) (trace (snd (pull_branch (Suc (Suc fuel)) b w)))"
proof -
  have step: "pull_branch (Suc n) b w = retry_loop n b w'" for n
    using pull answer retry
    unfolding w'_def evs_def logged1_def logged2_def entry1_def entry2_def ask_def
    apply (cases "shd (logfs w)"; cases "shd (stl (logfs w))")
       apply (simp_all add: pull_branch_def run_command_def py_print_def log_pull_error_eq
          py_input_eq Let_def)
       apply (rule arg_cong [where f = "retry_loop n b"], simp)+
    done
  have entries: "log_entries evs =
           (case shd (logfs w) of None \<Rightarrow> [entry1] | Some ex \<Rightarrow> [])
           @ (case shd (stl (logfs w)) of None \<Rightarrow> [entry2] | Some ex \<Rightarrow> [])"
    unfolding evs_def logged1_def logged2_def entry1_def entry2_def ask_def
    by (cases "shd (logfs w)"; cases "shd (stl (logfs w))") simp_all
  have again: "prefix (trace w' @ [ask]) (trace (snd (retry_loop (Suc fuel) b w')))"
  proof -
    have "prefix (trace w' @ [ask]) (trace (snd (retry_loop fuel b v)))"
      if "prefix (trace w' @ [ask]) (trace v)" for v
      using that by (rule retry_loop_trace)
    then show ?thesis
      by (simp add: py_input_eq run_command_def py_print_def log_pull_error_eq Let_def ask_def
          split: option.splits sum.splits)
  qed
  have "trace w' = trace w @ evs" by (simp add: w'_def)
  with again step [of "Suc fuel"] step [of fuel] entries show ?thesis by simp
qed

theorem retry_failure_logged_again_witness:
  "pull_branch (Suc (Suc 0)) ''dev''
     \<lparr>git = sconst (CalledProcessError ''conflict''),
      stdin = Some ''y'' ## sconst (Some ''n''), logfs = sconst None, trace = []\<rparr>
   = (Returned,
      \<lparr>git = sconst (CalledProcessError ''conflict''), stdin = sconst (Some ''n''),
       logfs = sconst None,
       trace = [Print ''  Pulling latest changes...'',
                Spawn [''git'', ''pull''],
                Print (''  Error pulling branch '' @ quoted ''dev'' @ '': conflict''),
                Append ''pull_errors.log''
                  (''Pull error on branch '' @ quoted ''dev'' @ '': conflict\<newline>''),
                Prompt (''Pull error on branch '' @ quoted ''dev'' @ ''. Try again? (y/n): ''),
                Print ''  Retrying pull...'',
                Spawn [''git'', ''pull''],
                Print ''  Retry failed: conflict'',
                Append ''pull_errors.log''
                  (''Pull error on branch '' @ quoted ''dev'' @ '': Retry: conflict\<newline>''),
                Prompt (''Pull error on branch '' @ quoted ''dev'' @ ''. Try again? (y/n): ''),
                Print (''  Skipping pull for branch '' @ quoted ''dev'' @ ''.'')]\<rparr>)"
proof -
  let ?w = "\<lparr>git = sconst (CalledProcessError ''conflict''),
             stdin = Some ''y'' ## sconst (Some ''n''), logfs = sconst None, trace = []\<rparr>"
  have h1: "command_result [''git'', ''pull''] (shd (git ?w)) = Inl ''conflict''"
    by (simp add: command_result_def strip_def py_isspace_def)
  have h2: "shd (stdin ?w) = Some ''y''" by simp
  have h3: "lower (strip ''y'') = ''y''"
    by (simp add: lower_def lower_char_def strip_def py_isspace_def)
  have h4: "command_result [''git'', ''pull''] (shd (stl (git ?w))) = Inl ''conflict''"
    by (simp add: command_result_def strip_def py_isspace_def)
  have n: "lower (strip ''n'') = ''n''"
    by (simp add: lower_def lower_char_def strip_def py_isspace_def)
  from retry_failure_logged_again [OF h1 h2 h3 h4, of "Suc 0" "''dev''"]
  show ?thesis
    by (simp add: LOG_FILE_def py_input_eq py_print_def n)
qed

text \<open>
  The claim as worded has two entries in the log. With a log that cannot be written, the
  pull fails, the operator answers \<open>y\<close>, the second pull fails, the prompt is shown again,
  and the log has no entry.
\<close>

theorem retry_failure_logged_again_counterexample:
  "command_result [''git'', ''pull''] (CalledProcessError ''conflict'') = Inl ''conflict''
   \<and> lower (strip ''y'') = ''y''
   \<and> control_flow (trace (snd (pull_branch (Suc (Suc 0)) ''dev''
       \<lparr>git = sconst (CalledProcessError ''conflict''),
        stdin = Some ''y'' ## sconst (Some ''n''),
        logfs = sconst (Some ''Permission denied''), trace = []\<rparr>)))
     = [Spawn [''git'', ''pull''],
        Prompt (''Pull error on branch '' @ quoted ''dev'' @ ''. Try again? (y/n): ''),
        Spawn [''git'', ''pull''],
        Prompt (''Pull error on branch '' @ quoted ''dev'' @ ''. Try again? (y/n): '')]
   \<and> log_entries (trace (snd (pull_branch (Suc (Suc 0)) ''dev''
       \<lparr>git = sconst (CalledProcessError ''conflict''),
        stdin = Some ''y'' ## sconst (Some ''n''),
        logfs = sconst (Some ''Permission denied''), trace = []\<rparr>))) = []"
  by (simp add: pull_branch_def run_command_def py_print_def log_pull_error_eq py_input_eq
      Let_def command_result_def lower_def lower_char_def strip_def py_isspace_def)

section \<open>The repository check\<close>

lemma is_git_repo_eq:
  "is_git_repo w =
     ((case command_result [''git'', ''rev-parse'', ''--is-inside-work-tree''] (shd (git w)) of
         Inl e \<Rightarrow> False | Inr output \<Rightarrow> lower output = ''true''),
      w\<lparr>git := stl (git w),
        trace := trace w @ [Spawn [''git'', ''rev-parse'', ''--is-inside-work-tree'']]\<rparr>)"
  by (simp add: is_git_repo_def run_command_def split: sum.splits)

lemma get_remote_branches_eq:
  "get_remote_branches w =
     ((case command_result [''git'', ''branch'', ''-r''] (shd (git w)) of
         Inl e \<Rightarrow> Inl e | Inr output \<Rightarrow> Inr (collect_branches (splitlines output) [])),
      w\<lparr>git := stl (git w), trace := trace w @ [Spawn [''git'', ''branch'', ''-r'']]\<rparr>)"
  by (simp add: get_remote_branches_def run_command_def split: sum.splits)

lemma main_trace_after_check:
  assumes "fst (is_git_repo w)"
  shows "prefix (trace w @ [Spawn [''git'', ''rev-parse'', ''--is-inside-work-tree''],
                           Print ''Fetching all remote branches...'',
                           Spawn [''git'', ''fetch'', ''--all'']])
           (trace (snd (main fuel w)))"
proof -
  let ?t = "trace w @ [Spawn [''git'', ''rev-parse'', ''--is-inside-work-tree''],
                       Print ''Fetching all remote branches...'',
                       Spawn [''git'', ''fetch'', ''--all'']]"
  have more: "prefix ?t (trace w @ Spawn [''git'', ''rev-parse'', ''--is-inside-work-tree'']
                          # Print ''Fetching all remote branches...''
                          # Spawn [''git'', ''fetch'', ''--all''] # evs)" for evs
    using prefix_prefix [of ?t ?t evs] by simp
  have branches: "prefix ?t (trace (snd (process_branches fuel bs v)))"
    if "prefix ?t (trace v)" for bs v
    using that by (rule process_branches_trace)
  show ?thesis
    using assms
    by (simp add: main_def is_git_repo_eq get_remote_branches_eq run_command_def py_print_def
        case_prod_beta more branches split: sum.splits outcome.splits)
qed

text \<open>
  Claim C9, as amended. The check passes exactly when the query succeeds and its output,
  stripped of surrounding whitespace and put in lower case, is \<open>true\<close>; \<open>is_git_repo\<close>
  compares \<open>output.lower()\<close>. When it passes, the run goes on to the fetch; when it does
  not, on any other output or on a failure of the command, the run ends with
  \<open>sys.exit(1)\<close>.
\<close>

theorem repository_check_passes_iff:
  fixes w :: world and fuel :: nat
  defines "query \<equiv> Spawn [''git'', ''rev-parse'', ''--is-inside-work-tree'']"
  shows "(fst (is_git_repo w)
            \<longleftrightarrow> (\<exists>out. shd (git w) = Completed out \<and> lower (strip out) = ''true''))
       \<and> (fst (is_git_repo w) \<longrightarrow>
            prefix (trace w @ [query, Print ''Fetching all remote branches...'',
                               Spawn [''git'', ''fetch'', ''--all'']])
              (trace (snd (main fuel w))))
       \<and> (\<not> fst (is_git_repo w) \<longrightarrow>
            main fuel w =
              (SysExit 1,
               w\<lparr>git := stl (git w),
                 trace := trace w @
                   [query, Print ''Error: This directory is not a Git repository.'']\<rparr>))"
proof -
  have check: "fst (is_git_repo w)
            \<longleftrightarrow> (\<exists>out. shd (git w) = Completed out \<and> lower (strip out) = ''true'')"
    by (cases "shd (git w)") (simp_all add: is_git_repo_eq command_result_def)
  have failed: "main fuel w =
              (SysExit 1,
               w\<lparr>git := stl (git w),
                 trace := trace w @
                   [query, Print ''Error: This directory is not a Git repository.'']\<rparr>)"
    if "\<not> fst (is_git_repo w)"
    using that unfolding query_def
    by (simp add: main_def is_git_repo_eq py_print_def split: sum.splits)
  from check failed main_trace_after_check [of w fuel] show ?thesis
    unfolding query_def by blast
qed

theorem repository_check_passes_iff_witness:
  "fst (is_git_repo
         \<lparr>git = Completed ''true\<newline>'' ## sconst TimeoutExpired, stdin = sconst None,
          logfs = sconst None, trace = []\<rparr>)
   \<and> prefix [Spawn [''git'', ''rev-parse'', ''--is-inside-work-tree''],
             Print ''Fetching all remote branches...'',
             Spawn [''git'', ''fetch'', ''--all'']]
        (trace (snd (main 0
           \<lparr>git = Completed ''true\<newline>'' ## sconst TimeoutExpired, stdin = sconst None,
            logfs = sconst None, trace = []\<rparr>)))"
proof -
  let ?w = "\<lparr>git = Completed ''true\<newline>'' ## sconst TimeoutExpired, stdin = sconst None,
             logfs = sconst None, trace = []\<rparr>"
  have pass: "\<exists>out. shd (git ?w) = Completed out \<and> lower (strip out) = ''true''"
    by (simp add: lower_def lower_char_def strip_def py_isspace_def char_of_eq_iff)
  from repository_check_passes_iff [of ?w 0] pass show ?thesis
    by simp
qed

text \<open>
  The claim as worded lets the check pass on the literal text \<open>true\<close> only. The output
  \<open>TRUE\<close> is another text, and the check passes on it.
\<close>

theorem repository_check_passes_iff_counterexample:
  "command_result [''git'', ''rev-parse'', ''--is-inside-work-tree''] (Completed ''TRUE'')
     = Inr ''TRUE''
   \<and> ''TRUE'' \<noteq> ''true''
   \<and> fst (is_git_repo
           \<lparr>git = sconst (Completed ''TRUE''), stdin = sconst None, logfs = sconst None,
            trace = []\<rparr>)"
  by (simp add: is_git_repo_eq lower_def lower_char_def strip_def py_isspace_def char_of_eq_iff)

text \<open>
  Claim C7. When the repository check does not pass (the query fails, or its output is
  not the expected one), the run ends with \<open>sys.exit(1)\<close> after the query and one printed
  message: no \<open>git fetch\<close> is started.
\<close>

theorem not_a_repository_exits_before_fetch:
  fixes w :: world and fuel :: nat
  defines "evs \<equiv> [Spawn [''git'', ''rev-parse'', ''--is-inside-work-tree''],
                  Print ''Error: This directory is not a Git repository.'']"
  assumes "\<not> fst (is_git_repo w)"
  shows "main fuel w = (SysExit 1, w\<lparr>git := stl (git w), trace := trace w @ evs\<rparr>)
       \<and> Spawn [''git'', ''fetch'', ''--all''] \<notin> set evs"
  using assms(2)
  by (simp add: main_def evs_def is_git_repo_def run_command_def py_print_def
      split: sum.splits prod.splits)

theorem not_a_repository_exits_before_fetch_witness:
  "main 0 \<lparr>git = sconst (CalledProcessError ''fatal: not a git repository''),
           stdin = sconst None, logfs = sconst None, trace = []\<rparr>
   = (SysExit 1,
      \<lparr>git = sconst (CalledProcessError ''fatal: not a git repository''),
       stdin = sconst None, logfs = sconst None,
       trace = [Spawn [''git'', ''rev-parse'', ''--is-inside-work-tree''],
                Print ''Error: This directory is not a Git repository.'']\<rparr>)"
  using not_a_repository_exits_before_fetch
          [where w = "\<lparr>git = sconst (CalledProcessError ''fatal: not a git repository''),
                        stdin = sconst None, logfs = sconst None, trace = []\<rparr>" and fuel = 0]
  by (simp add: is_git_repo_def run_command_def command_result_def)

section \<open>Failures of the log itself\<close>

lemma same_flowI:
  "git w1 = git w2 \<Longrightarrow> stdin w1 = stdin w2
   \<Longrightarrow> control_flow (trace w1) = control_flow (trace w2) \<Longrightarrow> same_flow w1 w2"
  by (simp add: same_flow_def)

lemma same_flow_retry_loop:
  "same_flow w1 w2 \<Longrightarrow>
     fst (retry_loop fuel b w1) = fst (retry_loop fuel b w2)
     \<and> same_flow (snd (retry_loop fuel b w1)) (snd (retry_loop fuel b w2))"
proof (induction fuel arbitrary: w1 w2)
  case 0
  then show ?case by simp
next
  case (Suc fuel)
  from Suc.prems have g: "git w1 = git w2" and s: "stdin w1 = stdin w2"
    and c: "control_flow (trace w1) = control_flow (trace w2)"
    by (simp_all add: same_flow_def)
  have IH1: "fst (retry_loop fuel b v1) = fst (retry_loop fuel b v2)"
    if "same_flow v1 v2" for v1 v2
    using Suc.IH [OF that] by simp
  have IH2: "same_flow (snd (retry_loop fuel b v1)) (snd (retry_loop fuel b v2))"
    if "same_flow v1 v2" for v1 v2
    using Suc.IH [OF that] by simp
  show ?case
    using g s c
    by (auto simp: py_input_eq run_command_def py_print_def log_pull_error_eq Let_def
        split: option.splits sum.splits intro!: IH1 IH2 same_flowI)
qed

lemma same_flow_pull_branch:
  assumes "same_flow w1 w2"
  shows "fst (pull_branch fuel b w1) = fst (pull_branch fuel b w2)
       \<and> same_flow (snd (pull_branch fuel b w1)) (snd (pull_branch fuel b w2))"
proof -
  from assms have g: "git w1 = git w2" and s: "stdin w1 = stdin w2"
    and c: "control_flow (trace w1) = control_flow (trace w2)"
    by (simp_all add: same_flow_def)
  note loop1 = same_flow_retry_loop [THEN conjunct1]
  note loop2 = same_flow_retry_loop [THEN conjunct2]
  show ?thesis
    using g s c
    by (auto simp: pull_branch_def run_command_def py_print_def log_pull_error_eq
        split: sum.splits intro!: loop1 loop2 same_flowI)
qed

lemma same_flow_process_branch:
  assumes "same_flow w1 w2"
  shows "fst (process_branch fuel b w1) = fst (process_branch fuel b w2)
       \<and> same_flow (snd (process_branch fuel b w1)) (snd (process_branch fuel b w2))"
proof -
  from assms have g: "git w1 = git w2" and s: "stdin w1 = stdin w2"
    and c: "control_flow (trace w1) = control_flow (trace w2)"
    by (simp_all add: same_flow_def)
  note pull1 = same_flow_pull_branch [THEN conjunct1]
  note pull2 = same_flow_pull_branch [THEN conjunct2]
  show ?thesis
    using g s c
    by (auto simp: process_branch_def run_command_def py_print_def branch_needs_pull_eq Let_def
        split: sum.splits option.splits intro!: pull1 pull2 same_flowI)
qed

lemma same_flow_process_branches:
  "same_flow w1 w2 \<Longrightarrow>
     fst (process_branches fuel bs w1) = fst (process_branches fuel bs w2)
     \<and> same_flow (snd (process_branches fuel bs w1)) (snd (process_branches fuel bs w2))"
proof (induction bs arbitrary: w1 w2)
  case Nil
  then show ?case by simp
next
  case (Cons b bs)
  obtain r1 v1 where p1: "process_branch fuel b w1 = (r1, v1)"
    by (cases "process_branch fuel b w1")
  obtain r2 v2 where p2: "process_branch fuel b w2 = (r2, v2)"
    by (cases "process_branch fuel b w2")
  from same_flow_process_branch [OF Cons.prems, of fuel b] p1 p2
  have r: "r1 = r2" and v: "same_flow v1 v2" by simp_all
  show ?case
  proof (cases r2)
    case Returned
    with r p1 p2 Cons.IH [OF v] show ?thesis by simp
  next
    case (SysExit n)
    with r p1 p2 v show ?thesis by simp
  next
    case (Uncaught m)
    with r p1 p2 v show ?thesis by simp
  next
    case OutOfFuel
    with r p1 p2 v show ?thesis by simp
  qed
qed

lemma same_flow_finish:
  assumes "fst p1 = fst p2" and "same_flow (snd p1) (snd p2)"
  shows "fst (case p1 of (Returned, w4) \<Rightarrow> (Returned, py_print s w4)
                       | (stop, w4) \<Rightarrow> (stop, w4))
         = fst (case p2 of (Returned, w4) \<Rightarrow> (Returned, py_print s w4)
                         | (stop, w4) \<Rightarrow> (stop, w4))
       \<and> same_flow
           (snd (case p1 of (Returned, w4) \<Rightarrow> (Returned, py_print s w4)
                          | (stop, w4) \<Rightarrow> (stop, w4)))
           (snd (case p2 of (Returned, w4) \<Rightarrow> (Returned, py_print s w4)
                          | (stop, w4) \<Rightarrow> (stop, w4)))"
proof -
  obtain r v1 where p1: "p1 = (r, v1)" by (cases p1)
  with assms(1) obtain v2 where p2: "p2 = (r, v2)" by (cases p2) simp
  from assms(2) show ?thesis
    unfolding p1 p2 by (cases r) (simp_all add: same_flow_def py_print_def)
qed

lemma same_flow_main:
  assumes "same_flow w1 w2"
  shows "fst (main fuel w1) = fst (main fuel w2)
       \<and> same_flow (snd (main fuel w1)) (snd (main fuel w2))"
proof -
  from assms have g: "git w1 = git w2" and s: "stdin w1 = stdin w2"
    and c: "control_flow (trace w1) = control_flow (trace w2)"
    by (simp_all add: same_flow_def)
  note loop1 = same_flow_process_branches [THEN conjunct1]
  note loop2 = same_flow_process_branches [THEN conjunct2]
  note fin1 = same_flow_finish [THEN conjunct1]
  note fin2 = same_flow_finish [THEN conjunct2]
  show ?thesis
    using g s c
    by (auto simp: main_def is_git_repo_eq get_remote_branches_eq run_command_def py_print_def
        split: sum.splits bool.splits intro!: fin1 fin2 loop1 loop2 same_flowI)
qed

text \<open>
  Claim C10. \<open>log_pull_error\<close> returns normally for every branch, message and state of
  the world. When the append to the log raises, nothing is appended, the exception is
  printed, and neither a subprocess outcome nor an input line is used up. So the file
  system cannot change the course of a run: with any other behaviour \<open>lf\<close> of the log in
  place of the one in \<open>w\<close>, the run ends in the same way after the same subprocesses
  and prompts, in the same order.
\<close>

theorem log_failure_is_contained:
  "log_pull_error b m w =
     (Inr (),
      w\<lparr>logfs := stl (logfs w),
        trace := trace w @
          (case shd (logfs w) of
             None \<Rightarrow> [Append LOG_FILE
                        (''Pull error on branch '' @ quoted b @ '': '' @ m @ ''\<newline>'')]
           | Some ex \<Rightarrow> [Print (''Error logging pull error: '' @ ex)])\<rparr>)
   \<and> fst (main fuel (w\<lparr>logfs := lf\<rparr>)) = fst (main fuel w)
   \<and> control_flow (trace (snd (main fuel (w\<lparr>logfs := lf\<rparr>))))
       = control_flow (trace (snd (main fuel w)))"
proof -
  have "same_flow (w\<lparr>logfs := lf\<rparr>) w"
    by (simp add: same_flow_def)
  from same_flow_main [OF this, of fuel] show ?thesis
    by (simp add: log_pull_error_eq same_flow_def)
qed

theorem log_failure_is_contained_witness:
  "log_pull_error ''dev'' ''conflict''
     \<lparr>git = sconst TimeoutExpired, stdin = sconst None,
      logfs = sconst (Some ''Permission denied''), trace = []\<rparr>
   = (Inr (),
      \<lparr>git = sconst TimeoutExpired, stdin = sconst None,
       logfs = sconst (Some ''Permission denied''),
       trace = [Print ''Error logging pull error: Permission denied'']\<rparr>)"
  using log_failure_is_contained
          [of "''dev''" "''conflict''"
              "\<lparr>git = sconst TimeoutExpired, stdin = sconst None,
                logfs = sconst (Some ''Permission denied''), trace = []\<rparr>"]
  by simp

end
